theory Spec2Isabelle
  imports Complex_Main
begin

section \<open>JavaScript values as the two widgets use them\<close>

text \<open>
  The currency converter (\<open>App.jsx\<close>, \<open>hooks/useCurrencyInfo.js\<close>) and the password
  generator are React components. Their state cells hold JavaScript values, so the
  embedding starts with the values a parsed JSON payload and the arithmetic of the
  component can produce.

  Numbers are exact rationals or \<open>NaN\<close>: rounding to binary64, the infinities and the
  sign of zero are outside the model. An object is the list of its own properties, each
  name once. \<open>Function\<close> stands for a built-in function (for instance \<open>Object\<close>, which is
  what \<open>res["constructor"]\<close> evaluates to on a parsed object) and \<open>Builtin\<close> for a
  built-in prototype object; both are truthy and have no \<open>toFixed\<close> member.
  \<open>Number.prototype\<close>, which has one and can only be reached as the \<open>__proto__\<close> of a
  number, is outside the model.
\<close>

datatype jsval =
    Undefined
  | Null
  | Bool bool
  | Num rat
  | NaN
  | Str string
  | Arr "jsval list"
  | Obj "(string \<times> jsval) list"
  | Function string
  | Builtin string

text \<open>What a \<open>throw\<close> or a rejected promise carries.\<close>

datatype error = NetworkFailure | SyntaxError | TypeError

text \<open>
  The parts of the JavaScript engine that the source relies on and that depend on the
  built-in prototypes: member reads on receivers that are not plain objects (strings,
  numbers, booleans, arrays, built-ins), the conversion to a number of a value that is
  not a primitive number, boolean, \<open>null\<close> or \<open>undefined\<close>, and the call of a built-in
  function on one argument (with no receiver), which may throw. They are parameters of
  every definition below; every theorem holds for all of them.
\<close>

record engine =
  memberOf :: "jsval \<Rightarrow> string \<Rightarrow> jsval"
  numberOf :: "jsval \<Rightarrow> jsval"
  callOf :: "jsval \<Rightarrow> jsval \<Rightarrow> error + jsval"

text \<open>ToBoolean, as \<open>if (x)\<close>, \<open>x || y\<close> and \<open>x && y\<close> apply it.\<close>

fun truthy :: "jsval \<Rightarrow> bool" where
  "truthy Undefined = False"
| "truthy Null = False"
| "truthy (Bool b) = b"
| "truthy (Num r) = (r \<noteq> 0)"
| "truthy NaN = False"
| "truthy (Str s) = (s \<noteq> [])"
| "truthy (Arr xs) = True"
| "truthy (Obj kvs) = True"
| "truthy (Function n) = True"
| "truthy (Builtin n) = True"

text \<open>
  The members every plain object inherits from \<open>Object.prototype\<close> (ECMAScript 20.1.3
  and Annex B.2.2): \<open>constructor\<close> is the function \<open>Object\<close>, \<open>__proto__\<close> reads as the
  prototype object, every other one is a function.
\<close>

definition objectPrototype :: "(string \<times> jsval) list" where
  "objectPrototype =
     [(''constructor'', Function ''Object''),
      (''hasOwnProperty'', Function ''hasOwnProperty''),
      (''isPrototypeOf'', Function ''isPrototypeOf''),
      (''propertyIsEnumerable'', Function ''propertyIsEnumerable''),
      (''toLocaleString'', Function ''toLocaleString''),
      (''toString'', Function ''toString''),
      (''valueOf'', Function ''valueOf''),
      (''__proto__'', Builtin ''Object.prototype''),
      (''__defineGetter__'', Function ''__defineGetter__''),
      (''__defineSetter__'', Function ''__defineSetter__''),
      (''__lookupGetter__'', Function ''__lookupGetter__''),
      (''__lookupSetter__'', Function ''__lookupSetter__'')]"

text \<open>
  The member read \<open>v[k]\<close>. On \<open>null\<close> and \<open>undefined\<close> it throws a TypeError. On a
  plain object an own property wins, then the inherited members, then \<open>undefined\<close>.
\<close>

fun getProp :: "engine \<Rightarrow> jsval \<Rightarrow> string \<Rightarrow> error + jsval" where
  "getProp eng Undefined k = Inl TypeError"
| "getProp eng Null k = Inl TypeError"
| "getProp eng (Obj kvs) k =
     (case map_of kvs k of
        Some v \<Rightarrow> Inr v
      | None \<Rightarrow> (case map_of objectPrototype k of Some b \<Rightarrow> Inr b | None \<Rightarrow> Inr Undefined))"
| "getProp eng v k = Inr (memberOf eng v k)"

text \<open>ToNumber, and the product \<open>a * b\<close> of two values.\<close>

fun toNumber :: "engine \<Rightarrow> jsval \<Rightarrow> jsval" where
  "toNumber eng Undefined = NaN"
| "toNumber eng Null = Num 0"
| "toNumber eng (Bool b) = Num (if b then 1 else 0)"
| "toNumber eng (Num r) = Num r"
| "toNumber eng NaN = NaN"
| "toNumber eng v = (case numberOf eng v of Num r \<Rightarrow> Num r | _ \<Rightarrow> NaN)"

definition jsMul :: "engine \<Rightarrow> jsval \<Rightarrow> jsval \<Rightarrow> jsval" where
  "jsMul eng a b =
     (case toNumber eng a of
        Num x \<Rightarrow> (case toNumber eng b of Num y \<Rightarrow> Num (x * y) | _ \<Rightarrow> NaN)
      | _ \<Rightarrow> NaN)"

text \<open>
  \<open>String.prototype.toLowerCase\<close> on the ASCII letters; currency codes are ASCII, and
  every other byte is left as it is.
\<close>

definition lowerChar :: "char \<Rightarrow> char" where
  "lowerChar c =
     (let n = (of_char c :: nat) in if 65 \<le> n \<and> n \<le> 90 then char_of (n + 32) else c)"

definition toLowerCase :: "string \<Rightarrow> string" where
  "toLowerCase s = map lowerChar s"

section \<open>The hook \<open>useCurrencyInfo\<close>: one fetch per currency\<close>

text \<open>
  What the network gives back for one request. \<open>fetch\<close> rejects only when no response
  arrives; a response of any status fulfils the promise. \<open>res.json()\<close> then either
  rejects (the body is not JSON) or yields the parsed value.
\<close>

datatype body = Unparsable | Parsed jsval

datatype fetch_outcome = NetworkError | Response nat body

definition requestUrl :: "string \<Rightarrow> string" where
  "requestUrl currency =
     ''https://cdn.jsdelivr.net/npm/@fawazahmed0/currency-api@latest/v1/currencies/''
       @ toLowerCase currency @ ''.json''"

text \<open>
  The promise chain of the effect, one definition per link. A settled promise is a sum:
  \<open>Inl\<close> a rejection, \<open>Inr\<close> the value it was fulfilled with. The last two links return
  the argument they pass to \<open>setData\<close>.
\<close>

definition fetchP :: "fetch_outcome \<Rightarrow> error + body" where
  "fetchP out = (case out of NetworkError \<Rightarrow> Inl NetworkFailure | Response status b \<Rightarrow> Inr b)"

definition jsonP :: "body \<Rightarrow> error + jsval" where
  "jsonP b = (case b of Unparsable \<Rightarrow> Inl SyntaxError | Parsed v \<Rightarrow> Inr v)"

definition extractP :: "engine \<Rightarrow> string \<Rightarrow> jsval \<Rightarrow> error + jsval" where
  "extractP eng currency res =
     (case getProp eng res (toLowerCase currency) of
        Inl e \<Rightarrow> Inl e
      | Inr v \<Rightarrow> Inr (if truthy v then v else Obj []))"

definition catchP :: "error + jsval \<Rightarrow> error + jsval" where
  "catchP p = (case p of Inl err \<Rightarrow> Inr (Obj []) | Inr v \<Rightarrow> Inr v)"

definition thenP :: "error + 'a \<Rightarrow> ('a \<Rightarrow> error + 'b) \<Rightarrow> error + 'b" where
  "thenP p f = (case p of Inl e \<Rightarrow> Inl e | Inr v \<Rightarrow> f v)"

definition fetchChain :: "engine \<Rightarrow> string \<Rightarrow> fetch_outcome \<Rightarrow> error + jsval" where
  "fetchChain eng currency out =
     catchP (thenP (thenP (fetchP out) jsonP) (extractP eng currency))"

text \<open>
  The hook's state: the cell \<open>data\<close> and the requests in flight, each remembered by the
  \<open>currency\<close> its closure captured, in the order they were issued.
\<close>

record hook =
  data :: jsval
  pending :: "string list"

text \<open>The effect body, run with the current \<open>currency\<close>: it only issues the request.\<close>

definition fetchEffect :: "string \<Rightarrow> 'a hook_scheme \<Rightarrow> 'a hook_scheme" where
  "fetchEffect currency h = h\<lparr>pending := pending h @ [currency]\<rparr>"

text \<open>
  A state setter of React given a function does not store it: it calls it on the current
  state and takes what it returns. The one function a parsed object can hand to
  \<open>setData\<close> under a lower-cased name is \<open>Object\<close> (\<open>Function ''Object''\<close>, wherever
  it is found), which returns an object argument itself and a new empty object for
  \<open>null\<close> and \<open>undefined\<close>; every other call is the engine's. React compares the new state with the current one: a primitive or built-in
  by value, while an object or array is a new one (parsed by \<open>res.json()\<close>, the literal
  \<open>{}\<close>, or made by the call) and differs. \<open>None\<close> says that the state is kept, in
  which case React renders nothing.
\<close>

fun isFunction :: "jsval \<Rightarrow> bool" where
  "isFunction (Function n) = True"
| "isFunction v = False"

fun isObject :: "jsval \<Rightarrow> bool" where
  "isObject (Obj kvs) = True"
| "isObject (Arr xs) = True"
| "isObject (Function n) = True"
| "isObject (Builtin n) = True"
| "isObject v = False"

definition stored :: "jsval \<Rightarrow> jsval \<Rightarrow> jsval option" where
  "stored prev v =
     (case v of
        Obj kvs \<Rightarrow> Some v
      | Arr xs \<Rightarrow> Some v
      | _ \<Rightarrow> if v = prev then None else Some v)"

definition setData :: "engine \<Rightarrow> jsval \<Rightarrow> jsval \<Rightarrow> error + jsval option" where
  "setData eng arg prev =
     (case arg of
        Function n \<Rightarrow>
          if n = ''Object'' \<and> isObject prev then Inr None
          else if n = ''Object'' \<and> (prev = Null \<or> prev = Undefined) then Inr (Some (Obj []))
          else (case callOf eng arg prev of Inl e \<Rightarrow> Inl e | Inr v \<Rightarrow> Inr (stored prev v))
      | _ \<Rightarrow> Inr (stored prev arg))"

text \<open>
  The request at position \<open>i\<close> settles with \<open>out\<close>: its chain runs to the end and
  calls \<open>setData\<close>. \<open>Inl\<close> is a chain that ended rejected (it would write nothing and
  leave the rejection unhandled) or a function given to \<open>setData\<close> that throws when
  React calls it.
\<close>

definition settle :: "engine \<Rightarrow> nat \<Rightarrow> fetch_outcome \<Rightarrow> 'a hook_scheme \<Rightarrow> error + 'a hook_scheme" where
  "settle eng i out h =
     (if i < length (pending h)
      then (case fetchChain eng (pending h ! i) out of
              Inl e \<Rightarrow> Inl e
            | Inr arg \<Rightarrow>
                (case setData eng arg (data h) of
                   Inl e \<Rightarrow> Inl e
                 | Inr None \<Rightarrow>
                     Inr (h\<lparr>pending := take i (pending h) @ drop (Suc i) (pending h)\<rparr>)
                 | Inr (Some v) \<Rightarrow>
                     Inr (h\<lparr>data := v, pending := take i (pending h) @ drop (Suc i) (pending h)\<rparr>)))
      else Inr h)"

section \<open>The component \<open>App\<close> of the currency converter\<close>

text \<open>
  The state of one mounted \<open>App\<close>: the four \<open>useState\<close> cells of the component on top
  of the hook's state (\<open>currencyInfo\<close> in the source is the hook's \<open>data\<close>). The field
  \<open>trace\<close> is not program state: it records, in order, which effect bodies have run.
\<close>

datatype effect = FetchRates | AutoConvert

record app = hook +
  amount :: jsval
  from_cur :: string
  to :: string
  convertedAmount :: jsval
  trace :: "effect list"

text \<open>
  The setters a handler or an effect of \<open>App\<close> can call, and what each overwrites.
  \<open>amount\<close> and \<open>convertedAmount\<close> only ever hold numbers (the defaults, \<open>Number(...)\<close>
  of an input, a product, or each other), \<open>from\<close> and \<open>to\<close> strings, so none of these
  setters is ever given a function.
\<close>

datatype action = SetAmount jsval | SetFrom string | SetTo string | SetConvertedAmount jsval

fun setState :: "app \<Rightarrow> action \<Rightarrow> app" where
  "setState s (SetAmount v) = s\<lparr>amount := v\<rparr>"
| "setState s (SetFrom c) = s\<lparr>from_cur := c\<rparr>"
| "setState s (SetTo c) = s\<lparr>to := c\<rparr>"
| "setState s (SetConvertedAmount v) = s\<lparr>convertedAmount := v\<rparr>"

text \<open>
  React applies the setter calls of one handler (or one effect) as one batch, in call
  order, to the state the component was rendered with.
\<close>

definition batch :: "app \<Rightarrow> action list \<Rightarrow> app" where
  "batch s acts = foldl setState s acts"

text \<open>
  The handlers and the effect are closures over the snapshot \<open>s\<close> of the render that
  created them; each returns the setter calls it makes.
\<close>

definition swap :: "app \<Rightarrow> action list" where
  "swap s =
     [SetFrom (to s), SetTo (from_cur s), SetConvertedAmount (amount s),
      SetAmount (convertedAmount s)]"

definition convert :: "engine \<Rightarrow> app \<Rightarrow> error + action list" where
  "convert eng s =
     (case getProp eng (data s) (to s) of
        Inl e \<Rightarrow> Inl e
      | Inr rate \<Rightarrow> Inr [SetConvertedAmount (jsMul eng (amount s) rate)])"

definition autoConvert :: "engine \<Rightarrow> app \<Rightarrow> error + action list" where
  "autoConvert eng s =
     (case getProp eng (data s) (to s) of
        Inl e \<Rightarrow> Inl e
      | Inr rate \<Rightarrow>
          if truthy rate then Inr [SetConvertedAmount (jsMul eng (amount s) rate)]
          else Inr [])"

text \<open>
  Where the component function itself throws while rendering a snapshot:
  \<open>Object.keys(currencyInfo)\<close> on \<open>null\<close> or \<open>undefined\<close>, and
  \<open>currencyInfo[to].toFixed(4)\<close>, evaluated when the rate is truthy, on a rate that
  is not a number. A render that throws commits nothing and runs no effect.
\<close>

definition render :: "engine \<Rightarrow> app \<Rightarrow> error + unit" where
  "render eng s =
     (case getProp eng (data s) (to s) of
        Inl e \<Rightarrow> Inl e
      | Inr rate \<Rightarrow>
          if truthy rate then (case rate of Num r \<Rightarrow> Inr () | _ \<Rightarrow> Inl TypeError)
          else Inr ())"

text \<open>
  After a render is committed, React runs the effects that are due, in the order the
  component declares them: the hook's effect (dependency \<open>[currency]\<close>, called with
  \<open>from\<close>) before the effect of \<open>App\<close> (dependencies \<open>[amount, currencyInfo, to]\<close>).
  The setter call of the second effect is applied as a batch of its own; it changes
  no dependency of either effect and nothing the render can throw on, so the render it
  causes runs no further effect.
\<close>

definition runEffects :: "engine \<Rightarrow> bool \<Rightarrow> bool \<Rightarrow> app \<Rightarrow> error + app" where
  "runEffects eng fetchDue convertDue s =
     (case render eng s of
        Inl e \<Rightarrow> Inl e
      | Inr u \<Rightarrow>
          (let s1 = (if fetchDue
                     then (fetchEffect (from_cur s) s)\<lparr>trace := trace s @ [FetchRates]\<rparr>
                     else s)
           in if convertDue
              then (case autoConvert eng s1 of
                      Inl e \<Rightarrow> Inl e
                    | Inr acts \<Rightarrow> Inr ((batch s1 acts)\<lparr>trace := trace s1 @ [AutoConvert]\<rparr>))
              else Inr s1))"

text \<open>
  The first render uses the \<open>useState\<close> defaults; every effect runs once after it
  (the second run that \<open>StrictMode\<close> adds in a development build is not modelled).
\<close>

definition initial :: app where
  "initial =
     \<lparr>data = Obj [], pending = [], amount = Num 1, from_cur = ''usd'', to = ''inr'',
      convertedAmount = Num 0, trace = []\<rparr>"

definition mount :: "engine \<Rightarrow> error + app" where
  "mount eng = runEffects eng True True initial"

text \<open>
  An effect is due after a later render when one of its dependencies differs from the
  previous render's. The cells of \<open>App\<close> hold primitives, which React compares by value.
\<close>

definition fetchDeps :: "app \<Rightarrow> string" where
  "fetchDeps s = from_cur s"

definition convertDeps :: "app \<Rightarrow> jsval \<times> jsval \<times> string" where
  "convertDeps s = (amount s, data s, to s)"

text \<open>
  A user event: the handler's setter calls are applied as one batch; when no cell
  changed React does not render again, otherwise it renders the new snapshot and runs
  the effects that are due.
\<close>

definition dispatch :: "engine \<Rightarrow> app \<Rightarrow> action list \<Rightarrow> error + app" where
  "dispatch eng s acts =
     (let s' = batch s acts
      in if s' = s then Inr s
         else runEffects eng (fetchDeps s' \<noteq> fetchDeps s) (convertDeps s' \<noteq> convertDeps s) s')"

text \<open>
  A request settles inside the mounted \<open>App\<close>. When \<open>setData\<close> changed the state,
  React renders the new snapshot; of the two effects only the one of \<open>App\<close> depends on
  \<open>data\<close>, and it is due. When the state is kept nothing is rendered and no effect runs.
\<close>

definition resolve :: "engine \<Rightarrow> nat \<Rightarrow> fetch_outcome \<Rightarrow> app \<Rightarrow> error + app" where
  "resolve eng i out s =
     (if i < length (pending s)
      then (case fetchChain eng (pending s ! i) out of
              Inl e \<Rightarrow> Inl e
            | Inr arg \<Rightarrow>
                (case setData eng arg (data s) of
                   Inl e \<Rightarrow> Inl e
                 | Inr None \<Rightarrow>
                     Inr (s\<lparr>pending := take i (pending s) @ drop (Suc i) (pending s)\<rparr>)
                 | Inr (Some v) \<Rightarrow>
                     runEffects eng False True
                       (s\<lparr>data := v, pending := take i (pending s) @ drop (Suc i) (pending s)\<rparr>)))
      else Inr s)"

section \<open>The password generator\<close>

text \<open>
  \<open>passwordGenerator\<close> of the password widget. The pool of characters starts with the
  52 letters; the digits and the symbols are appended when their flag is set. The last
  symbol of the source's literal is the backquote, character 96.
\<close>

definition letters :: string where
  "letters = ''ABCDEFGHIJKLMNOPQRSTUVWXYZabcdefghijklmnopqrstuvwxyz''"

definition digits :: string where
  "digits = ''0123456789''"

definition symbols :: string where
  "symbols = ''!@#$%^&*-_+=[]{}~'' @ [char_of (96 :: nat)]"

definition charPool :: "bool \<Rightarrow> bool \<Rightarrow> string" where
  "charPool numberAllowed charAllowed =
     letters @ (if numberAllowed then digits else []) @ (if charAllowed then symbols else [])"

text \<open>\<open>str.charAt(i)\<close>: the character at \<open>i\<close>, the empty string out of range.\<close>

definition charAt :: "string \<Rightarrow> int \<Rightarrow> string" where
  "charAt str i = (if 0 \<le> i \<and> i < int (length str) then [str ! nat i] else [])"

text \<open>
  The loop \<open>for (let i = 1; i <= length; i++)\<close>. \<open>random n\<close> is what the \<open>n\<close>-th call of
  \<open>Math.random()\<close> returns, counted from the start of this generation; \<open>calls\<close> counts
  the calls made so far. The index is \<open>Math.floor(Math.random() * str.length)\<close>.
\<close>

function genLoop :: "(nat \<Rightarrow> rat) \<Rightarrow> string \<Rightarrow> int \<Rightarrow> int \<Rightarrow> nat \<Rightarrow> string \<Rightarrow> string" where
  "genLoop random str len i calls pass =
     (if i \<le> len
      then genLoop random str len (i + 1) (Suc calls)
             (pass @ charAt str \<lfloor>random calls * of_nat (length str)\<rfloor>)
      else pass)"
  by pat_completeness auto
termination
  by (relation "measure (\<lambda>(random, str, len, i, calls, pass). nat (len + 1 - i))") auto

declare genLoop.simps [simp del]

definition passwordGenerator :: "(nat \<Rightarrow> rat) \<Rightarrow> int \<Rightarrow> bool \<Rightarrow> bool \<Rightarrow> string" where
  "passwordGenerator random len numberAllowed charAllowed =
     genLoop random (charPool numberAllowed charAllowed) len 1 0 []"

text \<open>
  The widget's cells with their \<open>useState\<close> defaults. Its effect calls
  \<open>passwordGenerator()\<close>, which ends in \<open>setPassword(pass)\<close>, after the first render and
  after every render in which \<open>length\<close>, \<open>numberAllowed\<close> or \<open>charAllowed\<close> changed.
\<close>

record generator =
  lengthCell :: int
  numberAllowed :: bool
  charAllowed :: bool
  password :: string
  copied :: bool

definition generatorInitial :: generator where
  "generatorInitial =
     \<lparr>lengthCell = 12, numberAllowed = True, charAllowed = True, password = [], copied = False\<rparr>"

definition generateEffect :: "(nat \<Rightarrow> rat) \<Rightarrow> generator \<Rightarrow> generator" where
  "generateEffect random g =
     g\<lparr>password := passwordGenerator random (lengthCell g) (numberAllowed g) (charAllowed g)\<rparr>"

definition generatorMount :: "(nat \<Rightarrow> rat) \<Rightarrow> generator" where
  "generatorMount random = generateEffect random generatorInitial"

datatype generator_action = SetLength int | ToggleNumber | ToggleChar

fun generatorSet :: "generator \<Rightarrow> generator_action \<Rightarrow> generator" where
  "generatorSet g (SetLength n) = g\<lparr>lengthCell := n\<rparr>"
| "generatorSet g ToggleNumber = g\<lparr>numberAllowed := \<not> numberAllowed g\<rparr>"
| "generatorSet g ToggleChar = g\<lparr>charAllowed := \<not> charAllowed g\<rparr>"

definition generatorDeps :: "generator \<Rightarrow> int \<times> bool \<times> bool" where
  "generatorDeps g = (lengthCell g, numberAllowed g, charAllowed g)"

definition generatorDispatch :: "(nat \<Rightarrow> rat) \<Rightarrow> generator \<Rightarrow> generator_action \<Rightarrow> generator" where
  "generatorDispatch random g a =
     (let g' = generatorSet g a
      in if generatorDeps g' \<noteq> generatorDeps g then generateEffect random g' else g')"

section \<open>Concrete inputs\<close>

text \<open>
  An engine for the examples: no member is found on a receiver that is not a plain
  object, no such value converts to a number, and every call left to the engine throws.
\<close>

definition plainEngine :: engine where
  "plainEngine =
     \<lparr>memberOf = (\<lambda>v k. Undefined), numberOf = (\<lambda>v. NaN), callOf = (\<lambda>f x. Inl TypeError)\<rparr>"

text \<open>Payloads in the shape the endpoint documents: the base currency maps to its rates.\<close>

definition ratesPayload :: "string \<Rightarrow> (string \<times> jsval) list \<Rightarrow> fetch_outcome" where
  "ratesPayload base rates = Response 200 (Parsed (Obj [(''date'', Str ''2024-03-06''), (base, Obj rates)]))"

definition usdRates :: "(string \<times> jsval) list" where
  "usdRates = [(''usd'', Num 1), (''inr'', Num 83.5)]"


definition gbpRates :: "(string \<times> jsval) list" where
  "gbpRates = [(''gbp'', Num 1), (''inr'', Num 105)]"

text \<open>
  A converter whose rates for the dollar have arrived and whose effect has converted
  10 dollars to rupees.
\<close>

definition convertedState :: app where
  "convertedState =
     \<lparr>data = Obj usdRates, pending = [], amount = Num 10, from_cur = ''usd'', to = ''inr'',
      convertedAmount = Num 835, trace = []\<rparr>"

section \<open>Properties of the fetch\<close>

lemma lowerChar_idem: "lowerChar (lowerChar c) = lowerChar c"
  by (simp add: lowerChar_def Let_def of_char_of)

lemma toLowerCase_idem: "toLowerCase (toLowerCase s) = toLowerCase s"
  by (simp add: toLowerCase_def lowerChar_idem)

text \<open>The \<open>.catch\<close> at the end of the chain handles every rejection before it.\<close>

lemma fetchChain_total: "\<exists>v. fetchChain eng currency out = Inr v"
  by (simp add: fetchChain_def catchP_def split: sum.splits)

lemma fetchChain_cases:
  "fetchChain eng k NetworkError = Inr (Obj [])"
  "fetchChain eng k (Response st Unparsable) = Inr (Obj [])"
  "fetchChain eng k (Response st (Parsed res)) =
     (case getProp eng res (toLowerCase k) of
        Inl e \<Rightarrow> Inr (Obj [])
      | Inr v \<Rightarrow> Inr (if truthy v then v else Obj []))"
  by (simp_all add: fetchChain_def catchP_def thenP_def fetchP_def jsonP_def extractP_def
        split: sum.splits)

lemma stored_value:
  "stored prev v = None \<Longrightarrow> v = prev"
  "stored prev v = Some w \<Longrightarrow> w = v"
  by (auto simp: stored_def split: jsval.splits if_splits)

lemma setData_value:
  assumes "\<not> isFunction arg"
  shows "setData eng arg prev = Inr (stored prev arg)"
  using assms by (cases arg) (simp_all add: setData_def)

text \<open>
  A value that is not a function ends up in the cell, whether React stores it or finds
  it there already.
\<close>

lemma settle_value:
  assumes "i < length (pending h)" and "fetchChain eng (pending h ! i) out = Inr v"
    and "\<not> isFunction v"
  shows "settle eng i out h
           = Inr (h\<lparr>data := v, pending := take i (pending h) @ drop (Suc i) (pending h)\<rparr>)"
proof (cases "stored (data h) v")
  case None
  then have "data h = v" using stored_value(1) [of "data h" v] by simp
  then have "h\<lparr>pending := take i (pending h) @ drop (Suc i) (pending h)\<rparr>
               = h\<lparr>data := v, pending := take i (pending h) @ drop (Suc i) (pending h)\<rparr>"
    by simp
  then show ?thesis
    using assms None by (simp add: settle_def setData_value)
next
  case (Some w)
  then have "w = v" using stored_value(2) [of "data h" v w] by simp
  then show ?thesis
    using assms Some by (simp add: settle_def setData_value)
qed

text \<open>
  The function \<open>Object\<close> given to \<open>setData\<close> leaves an object in the cell where it is:
  a request for \<open>constructor\<close> answered by an object without such a member writes
  nothing.
\<close>

lemma settle_constructor:
  "settle plainEngine 0 (Response 200 (Parsed (Obj [])))
      \<lparr>data = Obj gbpRates, pending = [''constructor'']\<rparr>
     = Inr \<lparr>data = Obj gbpRates, pending = []\<rparr>"
  by code_simp

lemma settle_latest:
  "settle eng (length (pending h)) out (fetchEffect k h) =
     (case fetchChain eng k out of
        Inl e \<Rightarrow> Inl e
      | Inr arg \<Rightarrow>
          (case setData eng arg (data h) of
             Inl e \<Rightarrow> Inl e
           | Inr None \<Rightarrow> Inr h
           | Inr (Some v) \<Rightarrow> Inr (h\<lparr>data := v\<rparr>)))"
  by (simp add: settle_def fetchEffect_def split: sum.splits option.splits)

lemma requestUrl_lower: "requestUrl (toLowerCase k) = requestUrl k"
  by (simp add: requestUrl_def toLowerCase_idem)

lemma extractP_lower: "extractP eng (toLowerCase k) res = extractP eng k res"
  by (simp add: extractP_def toLowerCase_idem)

lemma fetchChain_lower: "fetchChain eng (toLowerCase k) out = fetchChain eng k out"
proof -
  have "extractP eng (toLowerCase k) = extractP eng k"
    by (rule ext) (rule extractP_lower)
  then show ?thesis by (simp add: fetchChain_def)
qed

subsection \<open>Which request writes the cell\<close>




subsection \<open>Failed reads\<close>

text \<open>
  Claim C2, as the source has it. No rejection leaves the chain, whatever the network
  returns, and unless the chain hands a function to \<open>setData\<close> the settling returns
  normally. \<open>data\<close> becomes the empty object when \<open>fetch\<close> rejects, when the body
  does not parse, when the member read on the parsed value throws (the value is
  \<open>null\<close>), and when the parsed value has no truthy member under the lower-cased
  currency. The status of the response is never read: a body that parses and has a
  truthy member under the key that is not a function (every entry of the parsed JSON
  itself) is stored under any status.
\<close>

theorem fetch_failure_fallback:
  assumes "i < length (pending h)"
  shows "(\<exists>arg. fetchChain eng (pending h ! i) out = Inr arg
            \<and> (isFunction arg \<or> (\<exists>h'. settle eng i out h = Inr h')))
    \<and> settle eng i NetworkError h
        = Inr (h\<lparr>data := Obj [], pending := take i (pending h) @ drop (Suc i) (pending h)\<rparr>)
    \<and> settle eng i (Response st Unparsable) h
        = Inr (h\<lparr>data := Obj [], pending := take i (pending h) @ drop (Suc i) (pending h)\<rparr>)
    \<and> (getProp eng res (toLowerCase (pending h ! i)) = Inl e \<longrightarrow>
         settle eng i (Response st (Parsed res)) h
          = Inr (h\<lparr>data := Obj [], pending := take i (pending h) @ drop (Suc i) (pending h)\<rparr>))
    \<and> (getProp eng res (toLowerCase (pending h ! i)) = Inr v \<and> \<not> truthy v \<longrightarrow>
         settle eng i (Response st (Parsed res)) h
          = Inr (h\<lparr>data := Obj [], pending := take i (pending h) @ drop (Suc i) (pending h)\<rparr>))
    \<and> (getProp eng res (toLowerCase (pending h ! i)) = Inr v \<and> truthy v \<and> \<not> isFunction v \<longrightarrow>
         settle eng i (Response st (Parsed res)) h
          = Inr (h\<lparr>data := v, pending := take i (pending h) @ drop (Suc i) (pending h)\<rparr>))"
proof -
  let ?k = "pending h ! i"
  have nf: "\<not> isFunction (Obj [])" by simp
  obtain arg where arg: "fetchChain eng ?k out = Inr arg"
    using fetchChain_total by blast
  have total: "\<exists>arg. fetchChain eng ?k out = Inr arg
            \<and> (isFunction arg \<or> (\<exists>h'. settle eng i out h = Inr h'))"
  proof (cases "isFunction arg")
    case True
    with arg show ?thesis by blast
  next
    case False
    from settle_value [OF assms arg False] arg show ?thesis by blast
  qed
  have net: "settle eng i NetworkError h
        = Inr (h\<lparr>data := Obj [], pending := take i (pending h) @ drop (Suc i) (pending h)\<rparr>)"
    by (rule settle_value [OF assms _ nf]) (simp add: fetchChain_cases)
  have unp: "settle eng i (Response st Unparsable) h
        = Inr (h\<lparr>data := Obj [], pending := take i (pending h) @ drop (Suc i) (pending h)\<rparr>)"
    by (rule settle_value [OF assms _ nf]) (simp add: fetchChain_cases)
  have thr: "settle eng i (Response st (Parsed res)) h
          = Inr (h\<lparr>data := Obj [], pending := take i (pending h) @ drop (Suc i) (pending h)\<rparr>)"
    if "getProp eng res (toLowerCase ?k) = Inl e"
    by (rule settle_value [OF assms _ nf]) (simp add: fetchChain_cases that)
  have fal: "settle eng i (Response st (Parsed res)) h
          = Inr (h\<lparr>data := Obj [], pending := take i (pending h) @ drop (Suc i) (pending h)\<rparr>)"
    if "getProp eng res (toLowerCase ?k) = Inr v" and "\<not> truthy v"
    by (rule settle_value [OF assms _ nf]) (simp add: fetchChain_cases that)
  have tru: "settle eng i (Response st (Parsed res)) h
          = Inr (h\<lparr>data := v, pending := take i (pending h) @ drop (Suc i) (pending h)\<rparr>)"
    if g: "getProp eng res (toLowerCase ?k) = Inr v" and t: "truthy v" and f: "\<not> isFunction v"
    by (rule settle_value [OF assms _ f]) (simp add: fetchChain_cases g t)
  from total net unp thr fal tru show ?thesis by blast
qed

text \<open>
  A status 500 with a body that is not JSON, a network failure, and a status 500 whose
  JSON body lacks the currency.
\<close>

theorem fetch_failure_fallback_witness:
  "settle plainEngine 0 (Response 500 Unparsable) \<lparr>data = Obj usdRates, pending = [''xyz'']\<rparr>
     = Inr \<lparr>data = Obj [], pending = []\<rparr>
   \<and> settle plainEngine 0 NetworkError \<lparr>data = Obj usdRates, pending = [''xyz'']\<rparr>
     = Inr \<lparr>data = Obj [], pending = []\<rparr>
   \<and> settle plainEngine 0 (Response 500 (Parsed (Obj [(''message'', Str ''not found'')])))
        \<lparr>data = Obj usdRates, pending = [''xyz'']\<rparr>
     = Inr \<lparr>data = Obj [], pending = []\<rparr>"
proof -
  let ?h = "\<lparr>data = Obj usdRates, pending = [''xyz'']\<rparr>"
  let ?res = "Obj [(''message'', Str ''not found'')]"
  have i: "0 < length (pending ?h)" by simp
  have g: "getProp plainEngine ?res (toLowerCase (pending ?h ! 0)) = Inr Undefined
           \<and> \<not> truthy Undefined"
    by code_simp
  have r: "?h\<lparr>data := Obj [], pending := take 0 (pending ?h) @ drop (Suc 0) (pending ?h)\<rparr>
            = \<lparr>data = Obj [], pending = []\<rparr>"
    by simp
  show ?thesis
    using fetch_failure_fallback [OF i, of plainEngine NetworkError 500 ?res TypeError Undefined] g
    unfolding r by blast
qed

text \<open>
  Against the claim as stated (every non-success status ends in the empty object): a
  response of status 500 whose body is a well-formed rates object is stored as it is.
\<close>

theorem fetch_failure_counterexample:
  "settle plainEngine 0 (Response 500 (Parsed (Obj [(''xyz'', Obj [(''inr'', Num 1)])])))
      \<lparr>data = Obj usdRates, pending = [''xyz'']\<rparr>
     = Inr \<lparr>data = Obj [(''inr'', Num 1)], pending = []\<rparr>
   \<and> Obj [(''inr'', Num 1)] \<noteq> Obj []"
  by code_simp

subsection \<open>Case of the currency code\<close>

text \<open>
  Claim C10. The request URL and the member read both use the lower-cased code, so a
  code and its lower-cased form request the same URL and, the endpoint answering a URL
  the same way, settle alike: both leave the same value in \<open>data\<close>, or, where the
  chain hands \<open>setData\<close> a function that throws, both fail with the same error.
\<close>

theorem fetch_key_case_insensitive:
  "requestUrl (toLowerCase k) = requestUrl k
   \<and> settle eng (length (pending h)) (endpoint (requestUrl k)) (fetchEffect k h)
       = settle eng (length (pending h)) (endpoint (requestUrl (toLowerCase k)))
           (fetchEffect (toLowerCase k) h)
   \<and> ((\<exists>v. settle eng (length (pending h)) (endpoint (requestUrl k)) (fetchEffect k h)
              = Inr (h\<lparr>data := v\<rparr>)
          \<and> settle eng (length (pending h)) (endpoint (requestUrl (toLowerCase k)))
              (fetchEffect (toLowerCase k) h) = Inr (h\<lparr>data := v\<rparr>))
       \<or> (\<exists>e. settle eng (length (pending h)) (endpoint (requestUrl k)) (fetchEffect k h)
              = Inl e
          \<and> settle eng (length (pending h)) (endpoint (requestUrl (toLowerCase k)))
              (fetchEffect (toLowerCase k) h) = Inl e))"
proof -
  let ?A = "settle eng (length (pending h)) (endpoint (requestUrl k)) (fetchEffect k h)"
  let ?B = "settle eng (length (pending h)) (endpoint (requestUrl (toLowerCase k)))
              (fetchEffect (toLowerCase k) h)"
  have eq: "?A = ?B"
    by (simp add: settle_latest requestUrl_lower fetchChain_lower)
  obtain arg where arg: "fetchChain eng k (endpoint (requestUrl k)) = Inr arg"
    using fetchChain_total by blast
  have "(\<exists>v. ?A = Inr (h\<lparr>data := v\<rparr>)) \<or> (\<exists>e. ?A = Inl e)"
  proof (cases "setData eng arg (data h)")
    case (Inl e)
    then show ?thesis by (simp add: settle_latest arg)
  next
    case (Inr r)
    show ?thesis
    proof (cases r)
      case None
      then have "?A = Inr (h\<lparr>data := data h\<rparr>)"
        using Inr by (simp add: settle_latest arg)
      then show ?thesis by blast
    next
      case (Some v)
      then have "?A = Inr (h\<lparr>data := v\<rparr>)"
        using Inr by (simp add: settle_latest arg)
      then show ?thesis by blast
    qed
  qed
  then have "(\<exists>v. ?A = Inr (h\<lparr>data := v\<rparr>) \<and> ?B = Inr (h\<lparr>data := v\<rparr>))
           \<or> (\<exists>e. ?A = Inl e \<and> ?B = Inl e)"
  proof
    assume "\<exists>v. ?A = Inr (h\<lparr>data := v\<rparr>)"
    then obtain v where a: "?A = Inr (h\<lparr>data := v\<rparr>)" ..
    have "?B = Inr (h\<lparr>data := v\<rparr>)" using eq [symmetric] a by (rule trans)
    with a show ?thesis by blast
  next
    assume "\<exists>e. ?A = Inl e"
    then obtain e where a: "?A = Inl e" ..
    have "?B = Inl e" using eq [symmetric] a by (rule trans)
    with a show ?thesis by blast
  qed
  with eq requestUrl_lower show ?thesis by (intro conjI)
qed

theorem fetch_key_case_insensitive_witness:
  "settle plainEngine 0 (ratesPayload ''usd'' usdRates) (fetchEffect ''USD'' \<lparr>data = Obj [], pending = []\<rparr>)
     = Inr \<lparr>data = Obj usdRates, pending = []\<rparr>
   \<and> settle plainEngine 0 (ratesPayload ''usd'' usdRates) (fetchEffect ''usd'' \<lparr>data = Obj [], pending = []\<rparr>)
     = Inr \<lparr>data = Obj usdRates, pending = []\<rparr>"
proof -
  let ?h = "\<lparr>data = Obj [], pending = []\<rparr>"
  let ?out = "ratesPayload ''usd'' usdRates"
  have a: "toLowerCase ''USD'' = ''usd''" by code_simp
  have n: "length (pending ?h) = 0" by simp
  have b: "settle plainEngine 0 ?out (fetchEffect ''USD'' ?h)
             = Inr \<lparr>data = Obj usdRates, pending = []\<rparr>"
    by code_simp
  have "settle plainEngine (length (pending ?h)) ?out (fetchEffect ''USD'' ?h)
          = settle plainEngine (length (pending ?h)) ?out (fetchEffect (toLowerCase ''USD'') ?h)"
    using fetch_key_case_insensitive [of "''USD''" plainEngine ?h "\<lambda>u. ?out"] by (rule conjunct1 [OF conjunct2])
  then have "settle plainEngine 0 ?out (fetchEffect ''USD'' ?h)
          = settle plainEngine 0 ?out (fetchEffect ''usd'' ?h)"
    by (simp only: a n)
  then have "settle plainEngine 0 ?out (fetchEffect ''usd'' ?h)
             = Inr \<lparr>data = Obj usdRates, pending = []\<rparr>"
    using b by (simp only:)
  with b show ?thesis by (rule conjI)
qed

section \<open>Properties of the password generator\<close>

text \<open>
  \<open>Math.random()\<close> returns a binary64 below 1, and the product with a pool length of at
  most 80 rounds to a binary64 below that length, so the floor is an index into the
  pool in the source as it is in the exact arithmetic used here.
\<close>

lemma index_in_range:
  fixes r :: rat
  assumes "0 \<le> r" and "r < 1" and "str \<noteq> []"
  shows "0 \<le> \<lfloor>r * of_nat (length str)\<rfloor> \<and> \<lfloor>r * of_nat (length str)\<rfloor> < int (length str)"
proof -
  have pos: "(0::rat) < of_nat (length str)" using assms(3) by simp
  have "0 \<le> r * of_nat (length str)" using assms(1) by simp
  then have lo: "0 \<le> \<lfloor>r * of_nat (length str)\<rfloor>" by simp
  have "r * of_nat (length str) < 1 * of_nat (length str)"
    using assms(2) pos by (rule mult_strict_right_mono)
  then have "r * of_nat (length str) < of_int (int (length str))" by simp
  then have hi: "\<lfloor>r * of_nat (length str)\<rfloor> < int (length str)"
    by (simp only: floor_less_iff)
  from lo hi show ?thesis by simp
qed

lemma charAt_in_range:
  assumes "0 \<le> i" and "i < int (length str)"
  shows "length (charAt str i) = 1 \<and> set (charAt str i) \<subseteq> set str"
  using assms by (simp add: charAt_def)

lemma genLoop_inv:
  assumes "\<forall>n. 0 \<le> random n \<and> random n < 1" and "str \<noteq> []"
  shows "length (genLoop random str len i calls pass) = length pass + nat (len + 1 - i)
       \<and> set (genLoop random str len i calls pass) \<subseteq> set pass \<union> set str"
  using assms
proof (induction random str len i calls pass rule: genLoop.induct)
  case (1 random str len i calls pass)
  show ?case
  proof (cases "i \<le> len")
    case True
    let ?c = "charAt str \<lfloor>random calls * of_nat (length str)\<rfloor>"
    have r: "0 \<le> random calls" "random calls < 1" using "1.prems" by auto
    have c: "length ?c = 1 \<and> set ?c \<subseteq> set str"
      using index_in_range [OF r "1.prems"(2)] by (simp add: charAt_in_range)
    have ih: "length (genLoop random str len (i + 1) (Suc calls) (pass @ ?c))
                = length (pass @ ?c) + nat (len + 1 - (i + 1))
            \<and> set (genLoop random str len (i + 1) (Suc calls) (pass @ ?c))
                \<subseteq> set (pass @ ?c) \<union> set str"
      using "1.IH" [OF True "1.prems"] .
    have step: "genLoop random str len i calls pass
                  = genLoop random str len (i + 1) (Suc calls) (pass @ ?c)"
      using True by (subst genLoop.simps) simp
    have n: "Suc (nat (len + 1 - (i + 1))) = nat (len + 1 - i)" using True by simp
    show ?thesis using ih c n unfolding step by auto
  next
    case False
    then have "genLoop random str len i calls pass = pass"
      by (subst genLoop.simps) simp
    moreover have "nat (len + 1 - i) = 0" using False by simp
    ultimately show ?thesis by auto
  qed
qed

lemma letters_52: "length letters = 52 \<and> distinct letters"
  by (simp add: letters_def)

text \<open>
  Claim C5 (Scenario C of the password widget). With \<open>length = 6\<close> and both flags off,
  whatever \<open>Math.random()\<close> returns in \<open>[0, 1)\<close>, the generated string has exactly 6
  characters, each one of the 52 upper- and lower-case letters; the letters are 52
  distinct characters. Another run of the generator with the same inputs obeys the same
  constraints and can give another string.
\<close>

theorem password_scenario_C:
  assumes "\<forall>n. 0 \<le> random n \<and> random n < 1"
  shows "length (passwordGenerator random 6 False False) = 6
       \<and> set (passwordGenerator random 6 False False) \<subseteq> set letters
       \<and> length letters = 52 \<and> distinct letters
       \<and> (\<exists>r1 r2. (\<forall>n. 0 \<le> r1 n \<and> r1 n < 1) \<and> (\<forall>n. 0 \<le> r2 n \<and> r2 n < 1)
             \<and> passwordGenerator r1 6 False False \<noteq> passwordGenerator r2 6 False False)"
proof -
  have pool: "charPool False False = letters" by (simp add: charPool_def)
  have ne: "letters \<noteq> []" by (simp add: letters_def)
  have inv: "length (genLoop random letters 6 1 0 []) = length ([] :: string) + nat (6 + 1 - 1)
           \<and> set (genLoop random letters 6 1 0 []) \<subseteq> set ([] :: string) \<union> set letters"
    using genLoop_inv [OF assms ne] .
  have a: "passwordGenerator (\<lambda>n. 0) 6 False False = ''AAAAAA''" by code_simp
  have b: "passwordGenerator (\<lambda>n. 1 / 2) 6 False False = ''aaaaaa''" by code_simp
  have differ: "\<exists>r1 r2. (\<forall>n. 0 \<le> r1 n \<and> r1 n < 1) \<and> (\<forall>n. 0 \<le> r2 n \<and> r2 n < 1)
             \<and> passwordGenerator r1 6 False False \<noteq> passwordGenerator r2 6 False False"
  proof (intro exI conjI)
    show "passwordGenerator (\<lambda>n. 0) 6 False False \<noteq> passwordGenerator (\<lambda>n. 1 / 2) 6 False False"
      unfolding a b by simp
  qed simp_all
  show ?thesis
    using inv letters_52 differ by (simp add: passwordGenerator_def pool)
qed

theorem password_scenario_C_witness:
  "(\<forall>n::nat. (0::rat) \<le> 1 / 2 \<and> (1 / 2 :: rat) < 1)
   \<and> length (passwordGenerator (\<lambda>n. 1 / 2) 6 False False) = 6
   \<and> set (passwordGenerator (\<lambda>n. 1 / 2) 6 False False) \<subseteq> set letters"
  using password_scenario_C [of "\<lambda>n. 1 / 2"] by simp

section \<open>Properties of the converter\<close>

lemma setState_frame:
  "data (setState s a) = data s \<and> pending (setState s a) = pending s \<and> trace (setState s a) = trace s"
  by (cases a) simp_all

lemma batch_frame:
  "data (batch s acts) = data s \<and> pending (batch s acts) = pending s \<and> trace (batch s acts) = trace s"
  unfolding batch_def
  by (induction acts arbitrary: s) (simp_all add: setState_frame)

lemma render_ok_iff:
  "render eng s = Inr () \<longleftrightarrow>
     (\<exists>rate. getProp eng (data s) (to s) = Inr rate \<and> (truthy rate \<longrightarrow> (\<exists>r. rate = Num r)))"
  by (auto simp: render_def split: sum.splits jsval.splits)

lemma autoConvert_at:
  assumes "getProp eng (data s) (to s) = Inr rate"
  shows "autoConvert eng s =
           Inr (if truthy rate then [SetConvertedAmount (jsMul eng (amount s) rate)] else [])"
  using assms by (simp add: autoConvert_def)

text \<open>
  What the effect of \<open>App\<close> writes changes no dependency of either effect and nothing
  the render reads, so one round of effects after a render is all there is.
\<close>

lemma autoConvert_keeps_deps:
  assumes "autoConvert eng s = Inr acts"
  shows "convertDeps (batch s acts) = convertDeps s \<and> fetchDeps (batch s acts) = fetchDeps s
       \<and> render eng (batch s acts) = render eng s"
  using assms
  by (auto simp: autoConvert_def batch_def convertDeps_def fetchDeps_def render_def
        split: sum.splits if_splits)

lemma runEffects_at:
  assumes "render eng s = Inr ()" and "getProp eng (data s) (to s) = Inr rate"
  shows "runEffects eng fetchDue convertDue s =
     Inr (s\<lparr>pending := pending s @ (if fetchDue then [from_cur s] else []),
            convertedAmount := (if convertDue \<and> truthy rate then jsMul eng (amount s) rate
                                else convertedAmount s),
            trace := trace s @ (if fetchDue then [FetchRates] else [])
                             @ (if convertDue then [AutoConvert] else [])\<rparr>)"
  using assms
  by (simp add: runEffects_def autoConvert_def fetchEffect_def batch_def Let_def)

lemma dispatch_at:
  assumes "render eng (batch s acts) = Inr ()"
    and "getProp eng (data s) (to (batch s acts)) = Inr rate"
  shows "dispatch eng s acts =
     Inr ((batch s acts)
            \<lparr>pending := pending s @ (if fetchDeps (batch s acts) \<noteq> fetchDeps s
                                     then [from_cur (batch s acts)] else []),
             convertedAmount :=
               (if convertDeps (batch s acts) \<noteq> convertDeps s \<and> truthy rate
                then jsMul eng (amount (batch s acts)) rate
                else convertedAmount (batch s acts)),
             trace := trace s @ (if fetchDeps (batch s acts) \<noteq> fetchDeps s then [FetchRates] else [])
                              @ (if convertDeps (batch s acts) \<noteq> convertDeps s then [AutoConvert] else [])\<rparr>)"
proof (cases "batch s acts = s")
  case True
  then show ?thesis by (simp add: dispatch_def)
next
  case False
  have g: "getProp eng (data (batch s acts)) (to (batch s acts)) = Inr rate"
    using assms(2) by (simp add: batch_frame)
  show ?thesis
    using False by (simp add: dispatch_def Let_def runEffects_at [OF assms(1) g] batch_frame)
qed

lemma mount_at:
  "mount eng = Inr (initial\<lparr>pending := [''usd''], trace := [FetchRates, AutoConvert]\<rparr>)"
proof -
  have g: "getProp eng (data initial) (to initial) = Inr Undefined"
    by (simp add: initial_def objectPrototype_def)
  have r: "render eng initial = Inr ()"
    by (simp add: render_def g)
  show ?thesis
    by (simp add: mount_def runEffects_at [OF r g]) (simp add: initial_def)
qed

lemma resolve_at:
  assumes "i < length (pending s)" and "fetchChain eng (pending s ! i) out = Inr arg"
    and "setData eng arg (data s) = Inr (Some v)"
    and "render eng (s\<lparr>data := v, pending := take i (pending s) @ drop (Suc i) (pending s)\<rparr>)
           = Inr ()"
  shows "\<exists>rate. getProp eng v (to s) = Inr rate
       \<and> resolve eng i out s =
           Inr (s\<lparr>data := v, pending := take i (pending s) @ drop (Suc i) (pending s),
                   convertedAmount := (if truthy rate then jsMul eng (amount s) rate
                                       else convertedAmount s),
                   trace := trace s @ [AutoConvert]\<rparr>)"
proof -
  let ?s1 = "s\<lparr>data := v, pending := take i (pending s) @ drop (Suc i) (pending s)\<rparr>"
  obtain rate where g: "getProp eng (data ?s1) (to ?s1) = Inr rate"
    using assms(4) by (auto simp: render_ok_iff)
  have "resolve eng i out s = runEffects eng False True ?s1"
    using assms(1,2,3) by (simp add: resolve_def)
  then show ?thesis
    using g by (simp add: runEffects_at [OF assms(4) g])
qed

lemma resolve_kept:
  assumes "i < length (pending s)" and "fetchChain eng (pending s ! i) out = Inr arg"
    and "setData eng arg (data s) = Inr None"
  shows "resolve eng i out s
           = Inr (s\<lparr>pending := take i (pending s) @ drop (Suc i) (pending s)\<rparr>)"
  using assms by (simp add: resolve_def)

subsection \<open>Conversion\<close>

text \<open>
  Claim C3 (Scenario A). With \<open>amount = 1\<close>, rates \<open>{"inr": 83.5}\<close> and \<open>to = "inr"\<close>,
  \<open>setAmount(10)\<close> leaves 835 in \<open>convertedAmount\<close>, whatever the other cells hold.
  Both factors and the product are binary64 numbers (5 * 2, 167 / 2 and 835), so the
  product of the source is the exact one.
\<close>

theorem conversion_scenario_A:
  "dispatch eng
     \<lparr>data = Obj [(''inr'', Num 83.5)], pending = p, amount = Num 1, from_cur = f, to = ''inr'',
      convertedAmount = c, trace = t\<rparr>
     [SetAmount (Num 10)]
   = Inr \<lparr>data = Obj [(''inr'', Num 83.5)], pending = p, amount = Num 10, from_cur = f,
          to = ''inr'', convertedAmount = Num 835, trace = t @ [AutoConvert]\<rparr>"
  by (simp add: dispatch_def batch_def runEffects_def render_def autoConvert_def jsMul_def
        fetchDeps_def convertDeps_def)

theorem conversion_scenario_A_witness:
  "dispatch plainEngine
     \<lparr>data = Obj [(''inr'', Num 83.5)], pending = [], amount = Num 1, from_cur = ''usd'',
      to = ''inr'', convertedAmount = Num 0, trace = []\<rparr>
     [SetAmount (Num 10)]
   = Inr \<lparr>data = Obj [(''inr'', Num 83.5)], pending = [], amount = Num 10, from_cur = ''usd'',
          to = ''inr'', convertedAmount = Num 835, trace = [AutoConvert]\<rparr>"
  using conversion_scenario_A [of plainEngine "[]" "''usd''" "Num 0" "[]"] by simp

subsection \<open>The guard of the effect\<close>

text \<open>
  Claim C4. While the rate read \<open>currencyInfo[to]\<close> is falsy (no entry for the target
  currency, in particular) the effect body makes no setter call at all. A set of
  \<open>from\<close>, a cell outside the effect's dependencies, does not run the effect and leaves
  \<open>convertedAmount\<close> as it was; a set of \<open>amount\<close> runs it and still leaves
  \<open>convertedAmount\<close> as it was.
\<close>

theorem guarded_derivation:
  assumes "getProp eng (data s) (to s) = Inr rate" and "\<not> truthy rate"
  shows "autoConvert eng s = Inr []
    \<and> (\<exists>s'. dispatch eng s [SetFrom c] = Inr s' \<and> convertedAmount s' = convertedAmount s
           \<and> AutoConvert \<notin> set (drop (length (trace s)) (trace s')))
    \<and> (\<exists>s'. dispatch eng s [SetAmount v] = Inr s' \<and> convertedAmount s' = convertedAmount s)"
proof -
  have skip: "autoConvert eng s = Inr []"
    using assms by (simp add: autoConvert_at)
  let ?f = "s\<lparr>from_cur := c\<rparr>"
  have rf: "render eng ?f = Inr ()" and gf: "getProp eng (data ?f) (to ?f) = Inr rate"
    using assms by (simp_all add: render_def)
  have f: "\<exists>s'. dispatch eng s [SetFrom c] = Inr s' \<and> convertedAmount s' = convertedAmount s
           \<and> AutoConvert \<notin> set (drop (length (trace s)) (trace s'))"
  proof (cases "?f = s")
    case True
    then show ?thesis by (simp add: dispatch_def batch_def)
  next
    case False
    then show ?thesis
      by (simp add: dispatch_def batch_def fetchDeps_def convertDeps_def
            runEffects_at [OF rf gf])
  qed
  let ?a = "s\<lparr>amount := v\<rparr>"
  have ra: "render eng ?a = Inr ()" and ga: "getProp eng (data ?a) (to ?a) = Inr rate"
    using assms by (simp_all add: render_def)
  have a: "\<exists>s'. dispatch eng s [SetAmount v] = Inr s' \<and> convertedAmount s' = convertedAmount s"
  proof (cases "?a = s")
    case True
    then show ?thesis by (simp add: dispatch_def batch_def)
  next
    case False
    then show ?thesis
      using assms(2)
      by (simp add: dispatch_def batch_def fetchDeps_def convertDeps_def
            runEffects_at [OF ra ga])
  qed
  from skip f a show ?thesis by blast
qed

theorem guarded_derivation_witness:
  "getProp plainEngine (data initial) (to initial) = Inr Undefined \<and> \<not> truthy Undefined
   \<and> autoConvert plainEngine initial = Inr []
   \<and> (\<exists>s'. dispatch plainEngine initial [SetFrom ''eur''] = Inr s'
          \<and> convertedAmount s' = convertedAmount initial)"
proof -
  have g: "getProp plainEngine (data initial) (to initial) = Inr Undefined" by code_simp
  have t: "\<not> truthy Undefined" by simp
  show ?thesis
    using guarded_derivation [OF g t, of "''eur''" "Num 5"] g t by blast
qed

subsection \<open>Swap\<close>

text \<open>
  Claim C6. The four setter calls of \<open>swap\<close> exchange \<open>amount\<close> with
  \<open>convertedAmount\<close> and \<open>from\<close> with \<open>to\<close>, each from the values of the render the
  handler closed over, and \<open>swap\<close> does not depend on the rates. The snapshot they
  produce need not be a conversion: from 10 dollars shown as 835 rupees it holds
  amount 835 and converted amount 10, while the product with the rate it looks up
  (what \<open>convert\<close> would write) is 835.
\<close>

theorem swap_direct_exchange:
  "batch s (swap s)
     = s\<lparr>from_cur := to s, to := from_cur s, convertedAmount := amount s,
          amount := convertedAmount s\<rparr>
   \<and> swap (s\<lparr>data := d\<rparr>) = swap s
   \<and> batch convertedState (swap convertedState)
       = \<lparr>data = Obj usdRates, pending = [], amount = Num 835, from_cur = ''inr'', to = ''usd'',
          convertedAmount = Num 10, trace = []\<rparr>
   \<and> convert plainEngine (batch convertedState (swap convertedState))
       = Inr [SetConvertedAmount (Num 835)]"
proof -
  have a: "batch s (swap s)
     = s\<lparr>from_cur := to s, to := from_cur s, convertedAmount := amount s,
          amount := convertedAmount s\<rparr>"
    by (simp add: batch_def swap_def)
  have b: "swap (s\<lparr>data := d\<rparr>) = swap s" by (simp add: swap_def)
  have c: "batch convertedState (swap convertedState)
       = \<lparr>data = Obj usdRates, pending = [], amount = Num 835, from_cur = ''inr'', to = ''usd'',
          convertedAmount = Num 10, trace = []\<rparr>"
    by (simp add: batch_def swap_def convertedState_def)
  have d: "convert plainEngine \<lparr>data = Obj usdRates, pending = [], amount = Num 835, from_cur = ''inr'', to = ''usd'',
          convertedAmount = Num 10, trace = []\<rparr> = Inr [SetConvertedAmount (Num 835)]"
    by code_simp
  show ?thesis using a b c d by simp
qed

theorem swap_direct_exchange_witness:
  "batch convertedState (swap convertedState)
     = convertedState\<lparr>from_cur := ''inr'', to := ''usd'', convertedAmount := Num 10,
          amount := Num 835\<rparr>"
  using swap_direct_exchange [of convertedState "Obj []"]
  by (simp add: convertedState_def)

subsection \<open>How often the effects run\<close>

text \<open>
  Claim C8, as the source has it. The setter calls of one handler are applied as one
  batch and rendered once. Each effect then runs at most once: exactly once when one of
  its dependencies differs between the snapshot before the batch and the one after it,
  not at all otherwise, however many cells the batch changed. The effect of \<open>App\<close>
  computes from the snapshot after the whole batch.
\<close>

theorem effects_once_per_commit:
  assumes "render eng (batch s acts) = Inr ()"
  shows "\<exists>s' rate. dispatch eng s acts = Inr s'
      \<and> getProp eng (data s) (to (batch s acts)) = Inr rate
      \<and> trace s' = trace s
            @ (if fetchDeps (batch s acts) \<noteq> fetchDeps s then [FetchRates] else [])
            @ (if convertDeps (batch s acts) \<noteq> convertDeps s then [AutoConvert] else [])
      \<and> convertedAmount s' =
            (if convertDeps (batch s acts) \<noteq> convertDeps s \<and> truthy rate
             then jsMul eng (amount (batch s acts)) rate
             else convertedAmount (batch s acts))"
proof -
  obtain rate where g: "getProp eng (data (batch s acts)) (to (batch s acts)) = Inr rate"
    using assms by (auto simp: render_ok_iff)
  then have g': "getProp eng (data s) (to (batch s acts)) = Inr rate"
    by (simp add: batch_frame)
  show ?thesis
    using g' by (simp add: dispatch_at [OF assms g'])
qed

theorem effects_once_per_commit_witness:
  "render plainEngine (batch convertedState (swap convertedState)) = Inr ()
   \<and> (\<exists>s'. dispatch plainEngine convertedState (swap convertedState) = Inr s'
          \<and> trace s' = [FetchRates, AutoConvert] \<and> convertedAmount s' = Num 835)"
proof -
  have r: "render plainEngine (batch convertedState (swap convertedState)) = Inr ()"
    by code_simp
  have g: "getProp plainEngine (data convertedState) (to (batch convertedState (swap convertedState)))
             = Inr (Num 1)"
    by code_simp
  have d: "fetchDeps (batch convertedState (swap convertedState)) \<noteq> fetchDeps convertedState
         \<and> convertDeps (batch convertedState (swap convertedState)) \<noteq> convertDeps convertedState"
    by code_simp
  have m: "jsMul plainEngine (amount (batch convertedState (swap convertedState))) (Num 1) = Num 835"
    by code_simp
  have t: "trace convertedState = []" by (simp add: convertedState_def)
  show ?thesis
    using effects_once_per_commit [OF r] g d m t r by auto
qed

text \<open>
  Against the claim as stated (one notification per changed cell, in the order of the
  sets): two of the four setter calls of \<open>swap\<close> change a dependency of the effect of
  \<open>App\<close> (\<open>to\<close>, then \<open>amount\<close>), and the effect runs once.
\<close>

theorem unbatched_notification_counterexample:
  "filter (\<lambda>a. convertDeps (setState convertedState a) \<noteq> convertDeps convertedState)
      (swap convertedState) = [SetTo ''usd'', SetAmount (Num 835)]
   \<and> dispatch plainEngine convertedState (swap convertedState)
       = Inr \<lparr>data = Obj usdRates, pending = [''inr''], amount = Num 835, from_cur = ''inr'',
              to = ''usd'', convertedAmount = Num 835, trace = [FetchRates, AutoConvert]\<rparr>
   \<and> count_list [FetchRates, AutoConvert] AutoConvert = 1"
  by code_simp

subsection \<open>The first run of an effect\<close>

lemma generatorMount_length:
  assumes "\<forall>n. 0 \<le> random n \<and> random n < 1"
  shows "length (password (generatorMount random)) = 12"
proof -
  have ne: "charPool True True \<noteq> []" by (simp add: charPool_def letters_def)
  have "length (genLoop random (charPool True True) 12 1 0 [])
          = length ([] :: string) + nat (12 + 1 - 1)"
    using genLoop_inv [OF assms ne] by blast
  then show ?thesis
    by (simp add: generatorMount_def generateEffect_def generatorInitial_def passwordGenerator_def)
qed

text \<open>
  Claim C9, as the source has it. Mounting runs each effect body once against the
  \<open>useState\<close> defaults. The body of the converter's effect is guarded: with the
  initial empty rates it writes nothing, and \<open>convertedAmount\<close> keeps its default.
  After a later render in which \<open>amount\<close> or \<open>to\<close> changed, and after a response
  with which \<open>setData\<close> changed \<open>data\<close>, the body runs once more and writes the
  product when the rate is truthy; a response that leaves \<open>data\<close> as it is runs
  nothing. The password widget's effect has no guard: mounting writes a generated
  password (of the default length 12), and a change of a dependency writes a new one.
\<close>

theorem effect_at_mount_and_on_change:
  "mount eng = Inr (initial\<lparr>pending := [''usd''], trace := [FetchRates, AutoConvert]\<rparr>)
   \<and> autoConvert eng initial = Inr []
   \<and> (render eng (batch s acts) = Inr () \<and> convertDeps (batch s acts) \<noteq> convertDeps s \<longrightarrow>
        (\<exists>s' rate. dispatch eng s acts = Inr s'
           \<and> getProp eng (data s) (to (batch s acts)) = Inr rate
           \<and> count_list (trace s') AutoConvert = Suc (count_list (trace s) AutoConvert)
           \<and> convertedAmount s' = (if truthy rate then jsMul eng (amount (batch s acts)) rate
                                    else convertedAmount (batch s acts))))
   \<and> (i < length (pending s) \<and> fetchChain eng (pending s ! i) out = Inr arg
        \<and> setData eng arg (data s) = Inr (Some v)
        \<and> render eng (s\<lparr>data := v, pending := take i (pending s) @ drop (Suc i) (pending s)\<rparr>)
            = Inr () \<longrightarrow>
        (\<exists>s' rate. resolve eng i out s = Inr s'
           \<and> data s' = v
           \<and> getProp eng v (to s) = Inr rate
           \<and> count_list (trace s') AutoConvert = Suc (count_list (trace s) AutoConvert)
           \<and> convertedAmount s' = (if truthy rate then jsMul eng (amount s) rate
                                    else convertedAmount s)))
   \<and> (i < length (pending s) \<and> fetchChain eng (pending s ! i) out = Inr arg
        \<and> setData eng arg (data s) = Inr None \<longrightarrow>
        resolve eng i out s
          = Inr (s\<lparr>pending := take i (pending s) @ drop (Suc i) (pending s)\<rparr>))
   \<and> password (generatorMount random) = passwordGenerator random 12 True True
   \<and> ((\<forall>n. 0 \<le> random n \<and> random n < 1) \<longrightarrow> length (password (generatorMount random)) = 12)
   \<and> (generatorDeps (generatorSet g a) \<noteq> generatorDeps g \<longrightarrow>
        password (generatorDispatch random g a)
          = passwordGenerator random (lengthCell (generatorSet g a))
              (numberAllowed (generatorSet g a)) (charAllowed (generatorSet g a)))"
proof -
  have g0: "getProp eng (data initial) (to initial) = Inr Undefined"
    by (simp add: initial_def objectPrototype_def)
  have skip: "autoConvert eng initial = Inr []"
    by (simp add: autoConvert_at [OF g0])
  have change: "\<exists>s' rate. dispatch eng s acts = Inr s'
           \<and> getProp eng (data s) (to (batch s acts)) = Inr rate
           \<and> count_list (trace s') AutoConvert = Suc (count_list (trace s) AutoConvert)
           \<and> convertedAmount s' = (if truthy rate then jsMul eng (amount (batch s acts)) rate
                                    else convertedAmount (batch s acts))"
    if r: "render eng (batch s acts) = Inr ()" and d: "convertDeps (batch s acts) \<noteq> convertDeps s"
  proof -
    obtain rate where g: "getProp eng (data s) (to (batch s acts)) = Inr rate"
      using r by (auto simp: render_ok_iff batch_frame)
    show ?thesis
      using d g by (simp add: dispatch_at [OF r g])
  qed
  have arrive: "\<exists>s' rate. resolve eng i out s = Inr s'
           \<and> data s' = v
           \<and> getProp eng v (to s) = Inr rate
           \<and> count_list (trace s') AutoConvert = Suc (count_list (trace s) AutoConvert)
           \<and> convertedAmount s' = (if truthy rate then jsMul eng (amount s) rate
                                    else convertedAmount s)"
    if h: "i < length (pending s)" "fetchChain eng (pending s ! i) out = Inr arg"
      "setData eng arg (data s) = Inr (Some v)"
      "render eng (s\<lparr>data := v, pending := take i (pending s) @ drop (Suc i) (pending s)\<rparr>)
         = Inr ()"
  proof -
    obtain rate where "getProp eng v (to s) = Inr rate"
      and "resolve eng i out s =
           Inr (s\<lparr>data := v, pending := take i (pending s) @ drop (Suc i) (pending s),
                   convertedAmount := (if truthy rate then jsMul eng (amount s) rate
                                       else convertedAmount s),
                   trace := trace s @ [AutoConvert]\<rparr>)"
      using resolve_at [OF h] by blast
    then show ?thesis by simp
  qed
  have kept: "resolve eng i out s
          = Inr (s\<lparr>pending := take i (pending s) @ drop (Suc i) (pending s)\<rparr>)"
    if "i < length (pending s)" and "fetchChain eng (pending s ! i) out = Inr arg"
      and "setData eng arg (data s) = Inr None"
    using that by (rule resolve_kept)
  have gm: "password (generatorMount random) = passwordGenerator random 12 True True"
    by (simp add: generatorMount_def generateEffect_def generatorInitial_def)
  have gd: "password (generatorDispatch random g a)
          = passwordGenerator random (lengthCell (generatorSet g a))
              (numberAllowed (generatorSet g a)) (charAllowed (generatorSet g a))"
    if "generatorDeps (generatorSet g a) \<noteq> generatorDeps g"
    using that by (simp add: generatorDispatch_def generateEffect_def Let_def)
  show ?thesis
    using mount_at skip change arrive kept gm generatorMount_length gd by blast
qed

theorem effect_at_mount_and_on_change_witness:
  "(\<exists>s'. dispatch plainEngine convertedState [SetAmount (Num 20)] = Inr s'
        \<and> convertedAmount s' = Num 1670)
   \<and> (\<exists>s'. resolve plainEngine 0 (ratesPayload ''usd'' usdRates)
              (initial\<lparr>pending := [''usd''], trace := [FetchRates, AutoConvert]\<rparr>) = Inr s'
        \<and> convertedAmount s' = Num 83.5)
   \<and> length (password (generatorMount (\<lambda>n. 1 / 2))) = 12
   \<and> password (generatorDispatch (\<lambda>n. 1 / 2) generatorInitial (SetLength 6)) = ''oooooo''"
proof -
  let ?m = "initial\<lparr>pending := [''usd''], trace := [FetchRates, AutoConvert]\<rparr>"
  let ?b = "batch convertedState [SetAmount (Num 20)]"
  note thm1 = effect_at_mount_and_on_change
    [where eng = plainEngine and s = convertedState and acts = "[SetAmount (Num 20)]"
       and i = 0 and out = NetworkError and arg = "Obj []" and v = "Obj []"
       and random = "\<lambda>n. 1 / 2" and g = generatorInitial and a = "SetLength 6"]
  note thm2 = effect_at_mount_and_on_change
    [where eng = plainEngine and s = ?m and i = 0 and out = "ratesPayload ''usd'' usdRates"
       and arg = "Obj usdRates" and v = "Obj usdRates" and acts = "[]"
       and random = "\<lambda>n. 1 / 2" and g = generatorInitial and a = "SetLength 6"]
  have p1: "render plainEngine ?b = Inr () \<and> convertDeps ?b \<noteq> convertDeps convertedState"
    by code_simp
  have g1: "getProp plainEngine (data convertedState) (to ?b) = Inr (Num 83.5)"
    by code_simp
  have m1: "jsMul plainEngine (amount ?b) (Num 83.5) = Num 1670"
    by code_simp
  have c1: "\<exists>s'. dispatch plainEngine convertedState [SetAmount (Num 20)] = Inr s'
        \<and> convertedAmount s' = Num 1670"
  proof -
    from thm1 p1 obtain s' rate where
      d: "dispatch plainEngine convertedState [SetAmount (Num 20)] = Inr s'"
      and g: "getProp plainEngine (data convertedState) (to ?b) = Inr rate"
      and c: "convertedAmount s' = (if truthy rate then jsMul plainEngine (amount ?b) rate
                                    else convertedAmount ?b)"
      by blast
    have "Inr rate = (Inr (Num 83.5) :: error + jsval)"
      unfolding g [symmetric] by (rule g1)
    then have "rate = Num 83.5" by simp
    then have "convertedAmount s' = Num 1670" using c m1 by simp
    with d show ?thesis by blast
  qed
  have p2: "0 < length (pending ?m)
          \<and> fetchChain plainEngine (pending ?m ! 0) (ratesPayload ''usd'' usdRates)
              = Inr (Obj usdRates)
          \<and> setData plainEngine (Obj usdRates) (data ?m) = Inr (Some (Obj usdRates))
          \<and> render plainEngine
               (?m\<lparr>data := Obj usdRates, pending := take 0 (pending ?m) @ drop (Suc 0) (pending ?m)\<rparr>)
              = Inr ()"
    by code_simp
  have g2: "getProp plainEngine (Obj usdRates) (to ?m) = Inr (Num 83.5)"
    by code_simp
  have m2: "jsMul plainEngine (amount ?m) (Num 83.5) = Num 83.5"
    by code_simp
  have c2: "\<exists>s'. resolve plainEngine 0 (ratesPayload ''usd'' usdRates) ?m = Inr s'
        \<and> convertedAmount s' = Num 83.5"
  proof -
    from thm2 p2 obtain s' rate where
      d: "resolve plainEngine 0 (ratesPayload ''usd'' usdRates) ?m = Inr s'"
      and g: "getProp plainEngine (Obj usdRates) (to ?m) = Inr rate"
      and c: "convertedAmount s' = (if truthy rate then jsMul plainEngine (amount ?m) rate
                                    else convertedAmount ?m)"
      by blast
    have "Inr rate = (Inr (Num 83.5) :: error + jsval)"
      unfolding g [symmetric] by (rule g2)
    then have "rate = Num 83.5" by simp
    then have "convertedAmount s' = Num 83.5" using c m2 by simp
    with d show ?thesis by blast
  qed
  have r: "\<forall>n::nat. (0::rat) \<le> 1 / 2 \<and> (1 / 2 :: rat) < 1" by simp
  have c3: "length (password (generatorMount (\<lambda>n. 1 / 2))) = 12"
    using thm1 r by blast
  have p4: "generatorDeps (generatorSet generatorInitial (SetLength 6)) \<noteq> generatorDeps generatorInitial"
    by code_simp
  have v4: "passwordGenerator (\<lambda>n. 1 / 2) (lengthCell (generatorSet generatorInitial (SetLength 6)))
              (numberAllowed (generatorSet generatorInitial (SetLength 6)))
              (charAllowed (generatorSet generatorInitial (SetLength 6))) = ''oooooo''"
    by code_simp
  have c4: "password (generatorDispatch (\<lambda>n. 1 / 2) generatorInitial (SetLength 6)) = ''oooooo''"
  proof -
    from thm1 p4 have "password (generatorDispatch (\<lambda>n. 1 / 2) generatorInitial (SetLength 6))
        = passwordGenerator (\<lambda>n. 1 / 2) (lengthCell (generatorSet generatorInitial (SetLength 6)))
              (numberAllowed (generatorSet generatorInitial (SetLength 6)))
              (charAllowed (generatorSet generatorInitial (SetLength 6)))"
      by blast
    then show ?thesis by (simp only: v4)
  qed
  from c1 c2 c3 c4 show ?thesis by blast
qed

text \<open>
  Against the claim as stated (registration writes the result of the derivation): after
  mounting, the effect body has run and \<open>convertedAmount\<close> is still 0, while the
  product of \<open>amount\<close> and the rate read from the initial cells, which is what the
  unguarded \<open>convert\<close> writes, is \<open>NaN\<close>.
\<close>

theorem eager_derivation_counterexample:
  "mount plainEngine
     = Inr \<lparr>data = Obj [], pending = [''usd''], amount = Num 1, from_cur = ''usd'', to = ''inr'',
            convertedAmount = Num 0, trace = [FetchRates, AutoConvert]\<rparr>
   \<and> autoConvert plainEngine initial = Inr []
   \<and> convert plainEngine initial = Inr [SetConvertedAmount NaN]
   \<and> Num 0 \<noteq> NaN"
  by code_simp

end
